theory Spec2Isabelle
  imports Main
begin

section \<open>Python strings\<close>

text \<open>
  A Python \<open>str\<close> is a sequence of code points and \<open>len\<close> counts code points. The model
  takes a string to be a \<open>char list\<close> whose characters are the code points 0..255
  (ASCII and Latin-1), so \<open>length\<close> is \<open>len\<close>. On that range \<open>str.lower\<close> maps one code
  point to one code point, and \<open>str.isspace\<close> and the regular-expression class \<open>\s\<close>
  hold of the same characters.
\<close>

definition isspace :: "char \<Rightarrow> bool" where
  "isspace c =
     (let n = (of_char c :: nat)
      in (9 \<le> n \<and> n \<le> 13) \<or> (28 \<le> n \<and> n \<le> 32) \<or> n = 133 \<or> n = 160)"

definition lower_char :: "char \<Rightarrow> char" where
  "lower_char c =
     (let n = (of_char c :: nat)
      in if (65 \<le> n \<and> n \<le> 90) \<or> (192 \<le> n \<and> n \<le> 214) \<or> (216 \<le> n \<and> n \<le> 222)
         then char_of (n + 32) else c)"

text \<open>\<open>s.lower()\<close>\<close>

definition lower :: "string \<Rightarrow> string" where
  "lower s = map lower_char s"

text \<open>\<open>s.strip()\<close> and \<open>s.strip(chars)\<close>: the characters to remove are given as a predicate.\<close>

definition strip_chars :: "(char \<Rightarrow> bool) \<Rightarrow> string \<Rightarrow> string" where
  "strip_chars P s = rev (dropWhile P (rev (dropWhile P s)))"

definition strip :: "string \<Rightarrow> string" where
  "strip s = strip_chars isspace s"

text \<open>
  \<open>re.sub(r'C+', repl, s)\<close> for a character class \<open>C\<close>: every maximal run of characters
  of the class is replaced by \<open>repl\<close>.
\<close>

function sub_runs :: "(char \<Rightarrow> bool) \<Rightarrow> string \<Rightarrow> string \<Rightarrow> string" where
  "sub_runs P repl [] = []"
| "sub_runs P repl (c # cs) =
     (if P c then repl @ sub_runs P repl (dropWhile P cs) else c # sub_runs P repl cs)"
  by pat_completeness auto
termination
  by (relation "measure (\<lambda>(P, repl, s). length s)")
     (auto simp: le_imp_less_Suc length_dropWhile_le)

text \<open>\<open>s.startswith(p)\<close>, \<open>s.endswith(p)\<close> and the substring test \<open>p in s\<close>.\<close>

definition startswith :: "string \<Rightarrow> string \<Rightarrow> bool" where
  "startswith s p = (take (length p) s = p)"

definition endswith :: "string \<Rightarrow> string \<Rightarrow> bool" where
  "endswith s p = (length p \<le> length s \<and> drop (length s - length p) s = p)"

fun contains :: "string \<Rightarrow> string \<Rightarrow> bool" where
  "contains [] p = (p = [])"
| "contains (c # cs) p = (startswith (c # cs) p \<or> contains cs p)"

text \<open>The decimal numeral of a natural number, as \<open>f"{i}"\<close> formats it.\<close>

function str_of_nat :: "nat \<Rightarrow> string" where
  "str_of_nat n =
     (if n < 10 then [char_of (48 + n)]
      else str_of_nat (n div 10) @ [char_of (48 + n mod 10)])"
  by pat_completeness auto
termination
  by (relation "measure id") auto

declare str_of_nat.simps [simp del]

section \<open>AffiliateManager: cleaning and validating a slug\<close>

text \<open>The character class \<open>[a-z0-9-]\<close>.\<close>

definition slug_char :: "char \<Rightarrow> bool" where
  "slug_char c =
     (let n = (of_char c :: nat)
      in (97 \<le> n \<and> n \<le> 122) \<or> (48 \<le> n \<and> n \<le> 57) \<or> n = 45)"

definition is_hyphen :: "char \<Rightarrow> bool" where
  "is_hyphen c = (c = CHR ''-'')"

text \<open>
  \<open>AffiliateManager.clean_slug\<close>: lower-case and strip, whitespace runs to one hyphen,
  drop every character outside \<open>[a-z0-9-]\<close>, hyphen runs to one hyphen, strip hyphens.
\<close>

definition clean_slug :: "string \<Rightarrow> string" where
  "clean_slug slug =
     (if slug = [] then []
      else
        let s1 = strip (lower slug);
            s2 = sub_runs isspace ''-'' s1;
            s3 = filter slug_char s2;
            s4 = sub_runs is_hyphen ''-'' s3
        in strip_chars is_hyphen s4)"

text \<open>
  \<open>re.match(r'^[a-z0-9-]+$', slug)\<close>. The greedy \<open>+\<close> consumes the longest prefix of
  class characters; Python's \<open>$\<close> then succeeds at the end of the string and also just
  before a line feed that is the last character of the string. Backtracking to a shorter
  prefix cannot succeed, since the next character is then a class character.
\<close>

definition re_match_slug :: "string \<Rightarrow> bool" where
  "re_match_slug slug =
     (takeWhile slug_char slug \<noteq> [] \<and>
      (dropWhile slug_char slug = [] \<or> dropWhile slug_char slug = [CHR 0x0A]))"

definition reserved_words :: "string list" where
  "reserved_words =
     [''admin'', ''api'', ''www'', ''mail'', ''ftp'', ''localhost'', ''root'',
      ''slicewp'', ''affiliate'', ''wp-admin'', ''wp-content'', ''wp-includes'']"

text \<open>\<open>AffiliateManager.validate_slug\<close> returns the pair \<open>(is_valid, message)\<close>.\<close>

definition validate_slug :: "string \<Rightarrow> bool \<times> string" where
  "validate_slug slug =
     (if slug = [] then (False, ''Slug cannot be empty'')
      else if length slug < 3 then (False, ''Slug must be at least 3 characters long'')
      else if length slug > 100 then (False, ''Slug cannot be longer than 100 characters'')
      else if \<not> re_match_slug slug then
        (False, ''Slug can only contain lowercase letters, numbers, and hyphens'')
      else if startswith slug ''-'' \<or> endswith slug ''-'' then
        (False, ''Slug cannot start or end with a hyphen'')
      else if contains slug ''--'' then
        (False, ''Slug cannot contain consecutive hyphens'')
      else if slug \<in> set reserved_words then
        (False, [CHR 0x27] @ slug @ [CHR 0x27] @ '' is a reserved word and cannot be used'')
      else (True, ''Valid slug''))"

section \<open>DataHandler: the product table\<close>

text \<open>
  A row of the data frame read from the CSV file. \<open>record_id\<close> is a string after
  \<open>astype(str)\<close>, a missing id reading \<open>nan\<close>; in the other columns \<open>None\<close> is a
  missing value (NaN) and \<open>Some s\<close> a string. \<open>extra\<close> holds every further column.
\<close>

record product =
  record_id :: string
  Name :: "string option"
  Description :: "string option"
  Images :: "string option"
  URL_Slug :: "string option"
  extra :: "(string \<times> string option) list"

text \<open>
  The persisted state: the frame \<open>pd.read_csv\<close> returns for the data file, with
  \<open>record_id\<close> converted to \<open>str\<close> (\<open>None\<close> when the file is missing or cannot be read),
  and the number of calls of \<open>save_products\<close> made so far, each of which takes a backup
  and then writes the file. A cell \<open>Some s\<close> is a string held in a column of dtype
  object; columns that pandas reads as numbers are outside the model.
\<close>

record store =
  data_file :: "product list option"
  writes :: nat

text \<open>
  \<open>DataHandler.load_products\<close>: rows whose \<open>record_id\<close> is empty or \<open>nan\<close> are removed.
  On an error the source returns an empty data frame without columns, on which every
  column access of a caller raises; that frame is \<open>None\<close> here.
\<close>

definition load_products :: "store \<Rightarrow> product list option" where
  "load_products st =
     map_option (filter (\<lambda>p. record_id p \<noteq> [] \<and> record_id p \<noteq> ''nan'')) (data_file st)"

text \<open>
  What \<open>read_csv\<close> returns for a cell that \<open>to_csv\<close> wrote. A missing value is written
  as an empty field, and a field that is empty or is one of pandas' default missing-value
  markers is read as missing.
\<close>

definition na_values :: "string list" where
  "na_values =
     [[], ''#N/A'', ''#N/A N/A'', ''#NA'', ''-1.#IND'', ''-1.#QNAN'', ''-NaN'', ''-nan'',
      ''1.#IND'', ''1.#QNAN'', ''<NA>'', ''N/A'', ''NA'', ''NULL'', ''NaN'', ''None'', ''n/a'',
      ''nan'', ''null'']"

definition read_cell :: "string option \<Rightarrow> string option" where
  "read_cell c =
     (case c of None \<Rightarrow> None | Some s \<Rightarrow> if s \<in> set na_values then None else Some s)"

text \<open>
  A row after \<open>to_csv\<close> and the next \<open>read_csv\<close>; a \<open>record_id\<close> read as missing becomes
  \<open>nan\<close> under \<open>astype(str)\<close>.
\<close>

definition csv_reread :: "product \<Rightarrow> product" where
  "csv_reread p =
     \<lparr>record_id = (if record_id p \<in> set na_values then ''nan'' else record_id p),
      Name = read_cell (Name p), Description = read_cell (Description p),
      Images = read_cell (Images p), URL_Slug = read_cell (URL_Slug p),
      extra = map (\<lambda>(k, v). (k, read_cell v)) (extra p)\<rparr>"

text \<open>
  \<open>DataHandler.save_products\<close>. Whether the write succeeds is decided by the environment:
  \<open>io n\<close> tells whether save number \<open>n\<close> succeeds. After a successful write the file
  holds the frame as it will be read again. A failed write is taken to leave the file as
  it was; a write that fails midway and leaves a partial file is outside the model.
\<close>

definition save_products :: "(nat \<Rightarrow> bool) \<Rightarrow> product list \<Rightarrow> store \<Rightarrow> bool \<times> store" where
  "save_products io df st =
     (if io (writes st)
      then (True, \<lparr>data_file = Some (map csv_reread df), writes = Suc (writes st)\<rparr>)
      else (False, st\<lparr>writes := Suc (writes st)\<rparr>))"

text \<open>\<open>df.loc[mask, 'URL Slug'] = new_slug\<close> with \<open>mask = df['record_id'] == record_id\<close>.\<close>

definition set_slug :: "string \<Rightarrow> string \<Rightarrow> product \<Rightarrow> product" where
  "set_slug rid new_slug p = (if record_id p = rid then p\<lparr>URL_Slug := Some new_slug\<rparr> else p)"

text \<open>
  \<open>DataHandler.update_product_slug\<close>: every exception, among them the \<open>ValueError\<close> raised
  when no row has the id, is caught and turned into \<open>False\<close>.
\<close>

definition update_product_slug ::
  "(nat \<Rightarrow> bool) \<Rightarrow> string \<Rightarrow> string \<Rightarrow> store \<Rightarrow> bool \<times> store" where
  "update_product_slug io rid new_slug st =
     (case load_products st of
        None \<Rightarrow> (False, st)
      | Some df \<Rightarrow>
          if rid \<notin> set (map record_id df) then (False, st)
          else save_products io (map (set_slug rid new_slug) df) st)"

text \<open>\<open>Series.dropna()\<close>\<close>

primrec dropna :: "'a option list \<Rightarrow> 'a list" where
  "dropna [] = []"
| "dropna (x # xs) = (case x of None \<Rightarrow> dropna xs | Some v \<Rightarrow> v # dropna xs)"

text \<open>Truth value of an optional string argument: \<open>None\<close> and the empty string are false.\<close>

definition truthy :: "string option \<Rightarrow> bool" where
  "truthy x = (case x of None \<Rightarrow> False | Some s \<Rightarrow> s \<noteq> [])"

text \<open>
  The dtype of the column \<open>URL Slug\<close> is fixed when the file is read, before any row is
  filtered out: object when the file has no rows or some cell of the column holds a
  string, float64 when the file has rows and every cell of the column is missing.
\<close>

definition slug_column_is_text :: "store \<Rightarrow> bool" where
  "slug_column_is_text st =
     (case data_file st of
        None \<Rightarrow> False
      | Some rows \<Rightarrow> if rows = [] then True else 0 < length (dropna (map URL_Slug rows)))"

text \<open>
  \<open>DataHandler.check_slug_uniqueness\<close>; an exception is caught and gives \<open>False\<close>. On a
  column of dtype float64 the accessor \<open>.str\<close> raises \<open>AttributeError\<close>.
\<close>

definition check_slug_uniqueness :: "store \<Rightarrow> string \<Rightarrow> string option \<Rightarrow> bool" where
  "check_slug_uniqueness st slug exclude_record_id =
     (case load_products st of
        None \<Rightarrow> False
      | Some df \<Rightarrow>
          let df' = (if truthy exclude_record_id
                     then filter (\<lambda>p. record_id p \<noteq> the exclude_record_id) df else df)
          in if slug_column_is_text st then
               let existing_slugs = map lower (dropna (map URL_Slug df'))
               in lower slug \<notin> set existing_slugs
             else False)"

section \<open>AffiliateManager: availability, suggestion, bulk update\<close>

definition check_slug_availability :: "store \<Rightarrow> string \<Rightarrow> string option \<Rightarrow> bool" where
  "check_slug_availability st slug exclude_record_id =
     check_slug_uniqueness st slug exclude_record_id"

text \<open>The loop \<open>for i in range(2, 100)\<close> of \<open>suggest_slug\<close>, over the list of its indices.\<close>

fun try_numbered :: "store \<Rightarrow> string \<Rightarrow> nat list \<Rightarrow> string option" where
  "try_numbered st suggested_slug [] = None"
| "try_numbered st suggested_slug (i # rest) =
     (let numbered_slug = suggested_slug @ ''-'' @ str_of_nat i
      in if check_slug_availability st numbered_slug None then Some numbered_slug
         else try_numbered st suggested_slug rest)"

text \<open>
  \<open>AffiliateManager.suggest_slug\<close>. \<open>mmdd\<close> is \<open>datetime.now().strftime("%m%d")\<close>, an input
  from the environment; a missing product name (\<open>None\<close> or NaN) is \<open>None\<close>.
\<close>

definition suggest_slug :: "string \<Rightarrow> store \<Rightarrow> string option \<Rightarrow> string" where
  "suggest_slug mmdd st product_name =
     (case product_name of
        None \<Rightarrow> []
      | Some name \<Rightarrow>
          if name = [] then []
          else
            let suggested_slug = clean_slug name
            in if length suggested_slug < 3 then []
               else if check_slug_availability st suggested_slug None then suggested_slug
               else (case try_numbered st suggested_slug [2..<100] of
                       Some numbered_slug \<Rightarrow> numbered_slug
                     | None \<Rightarrow> suggested_slug @ ''-'' @ mmdd))"

text \<open>An item of \<open>updates\<close> (a dictionary read with \<open>get\<close>) and an entry of \<open>results\<close>.\<close>

record update =
  upd_record_id :: "string option"
  upd_new_slug :: "string option"

record outcome =
  out_record_id :: "string option"
  success :: bool
  error :: "string option"

text \<open>The body of the loop of \<open>bulk_update_slugs\<close>: the entry appended and the new state.\<close>

definition bulk_step :: "(nat \<Rightarrow> bool) \<Rightarrow> update \<Rightarrow> store \<Rightarrow> outcome \<times> store" where
  "bulk_step io u st =
     (if \<not> truthy (upd_record_id u) \<or> \<not> truthy (upd_new_slug u) then
        (\<lparr>out_record_id = upd_record_id u, success = False,
          error = Some ''Missing record_id or new_slug''\<rparr>, st)
      else
        let rid = the (upd_record_id u); new_slug = the (upd_new_slug u);
            (is_valid, message) = validate_slug new_slug
        in if \<not> is_valid then
             (\<lparr>out_record_id = Some rid, success = False,
               error = Some (''Invalid slug: '' @ message)\<rparr>, st)
           else if \<not> check_slug_availability st new_slug (Some rid) then
             (\<lparr>out_record_id = Some rid, success = False,
               error = Some ''Slug already exists''\<rparr>, st)
           else
             let (ok, st') = update_product_slug io rid new_slug st
             in (\<lparr>out_record_id = Some rid, success = ok,
                  error = (if ok then None else Some ''Failed to update database'')\<rparr>, st'))"

fun bulk_update_slugs :: "(nat \<Rightarrow> bool) \<Rightarrow> update list \<Rightarrow> store \<Rightarrow> outcome list \<times> store" where
  "bulk_update_slugs io [] st = ([], st)"
| "bulk_update_slugs io (u # us) st =
     (let (r, st') = bulk_step io u st;
          (rs, st'') = bulk_update_slugs io us st'
      in (r # rs, st''))"

section \<open>AffiliateManager: slug analysis\<close>

text \<open>An entry of \<open>analysis['suggestions']\<close>; \<open>current_slug\<close> is absent for a missing slug.\<close>

record suggestion =
  sug_record_id :: string
  product_name :: "string option"
  current_slug :: "string option"
  suggested_slug :: string
  reason :: string

text \<open>
  The dictionary \<open>analysis\<close> without \<open>completion_rate\<close>, a floating-point quotient of two
  of the counters that is computed after the loop.
\<close>

record analysis =
  total_products :: nat
  products_with_slugs :: nat
  products_without_slugs :: nat
  duplicate_slugs :: nat
  invalid_slugs :: nat
  suggestions :: "suggestion list"

text \<open>\<open>pd.isna(slug) or slug == ''\<close>\<close>

definition no_slug :: "string option \<Rightarrow> bool" where
  "no_slug s = (case s of None \<Rightarrow> True | Some v \<Rightarrow> v = [])"

text \<open>
  The body of the loop of \<open>analyze_slug_performance\<close> over the rows of \<open>df\<close>; the state
  is \<open>analysis\<close> and the dictionary \<open>slug_counts\<close>.
\<close>

definition analyze_step ::
  "string \<Rightarrow> store \<Rightarrow> analysis \<times> (string \<rightharpoonup> nat) \<Rightarrow> product \<Rightarrow> analysis \<times> (string \<rightharpoonup> nat)" where
  "analyze_step mmdd st acc p =
     (let (a, slug_counts) = acc
      in if no_slug (URL_Slug p) then
           let a1 = a\<lparr>products_without_slugs := products_without_slugs a + 1\<rparr>;
               suggested = suggest_slug mmdd st (Name p)
           in (if suggested \<noteq> [] then
                 a1\<lparr>suggestions := suggestions a1 @
                      [\<lparr>sug_record_id = record_id p, product_name = Name p,
                        current_slug = None, suggested_slug = suggested,
                        reason = ''Missing slug''\<rparr>]\<rparr>
               else a1, slug_counts)
         else
           let slug = the (URL_Slug p);
               a1 = a\<lparr>products_with_slugs := products_with_slugs a + 1\<rparr>;
               (a2, slug_counts') =
                 (case slug_counts slug of
                    Some c \<Rightarrow>
                      (if c + 1 = 2
                       then a1\<lparr>duplicate_slugs := duplicate_slugs a1 + 2\<rparr>
                       else a1\<lparr>duplicate_slugs := duplicate_slugs a1 + 1\<rparr>,
                       slug_counts(slug \<mapsto> c + 1))
                  | None \<Rightarrow> (a1, slug_counts(slug \<mapsto> 1)));
               (is_valid, message) = validate_slug slug
           in if \<not> is_valid then
                let a3 = a2\<lparr>invalid_slugs := invalid_slugs a2 + 1\<rparr>;
                    suggested = suggest_slug mmdd st (Name p)
                in (if suggested \<noteq> [] then
                      a3\<lparr>suggestions := suggestions a3 @
                           [\<lparr>sug_record_id = record_id p, product_name = Name p,
                             current_slug = Some slug, suggested_slug = suggested,
                             reason = ''Invalid slug: '' @ message\<rparr>]\<rparr>
                    else a3, slug_counts')
              else (a2, slug_counts'))"

fun analyze_rows ::
  "string \<Rightarrow> store \<Rightarrow> analysis \<times> (string \<rightharpoonup> nat) \<Rightarrow> product list \<Rightarrow> analysis \<times> (string \<rightharpoonup> nat)" where
  "analyze_rows mmdd st acc [] = acc"
| "analyze_rows mmdd st acc (p # ps) = analyze_rows mmdd st (analyze_step mmdd st acc p) ps"

definition analyze_slug_performance :: "string \<Rightarrow> store \<Rightarrow> product list \<Rightarrow> analysis" where
  "analyze_slug_performance mmdd st df =
     fst (analyze_rows mmdd st
            (\<lparr>total_products = length df, products_with_slugs = 0,
              products_without_slugs = 0, duplicate_slugs = 0, invalid_slugs = 0,
              suggestions = []\<rparr>, Map.empty) df)"

text \<open>
  The slugs of the rows that have one (neither missing nor empty), in row order: the
  values the duplicate counter of the analysis sees.
\<close>

definition assigned_slugs :: "product list \<Rightarrow> string list" where
  "assigned_slugs df = map (\<lambda>p. the (URL_Slug p)) (filter (\<lambda>p. \<not> no_slug (URL_Slug p)) df)"

section \<open>Canonical slugs\<close>

text \<open>
  Predicates for stating what the cleaning establishes: no two adjacent characters of a
  class, no character of a class at either end, and the three together for a slug.
\<close>

fun no_double :: "(char \<Rightarrow> bool) \<Rightarrow> string \<Rightarrow> bool" where
  "no_double P [] = True"
| "no_double P [c] = True"
| "no_double P (c # d # cs) = (\<not> (P c \<and> P d) \<and> no_double P (d # cs))"

definition trimmed :: "(char \<Rightarrow> bool) \<Rightarrow> string \<Rightarrow> bool" where
  "trimmed P s = (s = [] \<or> (\<not> P (hd s) \<and> \<not> P (last s)))"

definition canonical :: "string \<Rightarrow> bool" where
  "canonical s = (list_all slug_char s \<and> no_double is_hyphen s \<and> trimmed is_hyphen s)"

section \<open>The specification's index and example tables\<close>

text \<open>
  The Uniqueness Index in the words of the specification: the lower-cased non-empty slugs
  of the products whose id is not \<open>exclude_id\<close>. It is compared below with what
  \<open>check_slug_uniqueness\<close> computes.
\<close>

definition spec_slug_index :: "product list \<Rightarrow> string option \<Rightarrow> string list" where
  "spec_slug_index df exclude_id =
     map lower (filter (\<lambda>s. s \<noteq> [])
       (dropna (map URL_Slug (filter (\<lambda>p. Some (record_id p) \<noteq> exclude_id) df))))"









text \<open>Tables used as concrete inputs.\<close>

definition slug_row :: "string \<Rightarrow> string option \<Rightarrow> string option \<Rightarrow> product" where
  "slug_row rid name slug =
     \<lparr>record_id = rid, Name = name, Description = None, Images = None, URL_Slug = slug,
      extra = []\<rparr>"

definition shoes_store :: store where
  "shoes_store =
     \<lparr>data_file = Some [slug_row ''1'' (Some ''Shoes'') (Some ''shoes''),
                        slug_row ''2'' (Some ''Shoes'') (Some ''shoes-2'')],
      writes = 0\<rparr>"

text \<open>A table none of whose products has a slug yet.\<close>

definition unassigned_store :: store where
  "unassigned_store =
     \<lparr>data_file = Some [slug_row ''1'' (Some ''Shoes'') None,
                        slug_row ''2'' (Some ''Boots'') None],
      writes = 0\<rparr>"


text \<open>
  A table in which \<open>abc\<close>, every numbered variant \<open>abc-2\<close> .. \<open>abc-99\<close> and the date
  variant \<open>abc-0101\<close> are assigned.
\<close>

definition taken_slugs :: "string list" where
  "taken_slugs = ''abc'' # map (\<lambda>i. ''abc-'' @ str_of_nat i) [2..<100] @ [''abc-0101'']"

definition taken_store :: store where
  "taken_store = \<lparr>data_file = Some (map (\<lambda>s. slug_row s None (Some s)) taken_slugs), writes = 0\<rparr>"


text \<open>Three products that share one slug.\<close>

definition triple_rows :: "product list" where
  "triple_rows =
     [slug_row ''1'' (Some ''Shoes'') (Some ''shoes''),
      slug_row ''2'' (Some ''Shoes'') (Some ''shoes''),
      slug_row ''3'' (Some ''Shoes'') (Some ''shoes'')]"

section \<open>Cleaning is idempotent\<close>

lemma slug_char_lower: "slug_char c \<Longrightarrow> lower_char c = c"
  by (auto simp: slug_char_def lower_char_def Let_def)

lemma slug_char_not_space: "slug_char c \<Longrightarrow> \<not> isspace c"
  by (auto simp: slug_char_def isspace_def Let_def)

lemma slug_char_hyphen: "is_hyphen c \<Longrightarrow> slug_char c"
  by (simp add: slug_char_def is_hyphen_def)

lemma lower_slug_chars: "list_all slug_char s \<Longrightarrow> lower s = s"
  by (induction s) (auto simp: lower_def slug_char_lower)

lemma strip_chars_prefix: "strip_chars P s = take (length (strip_chars P s)) (dropWhile P s)"
proof -
  have "rev (dropWhile P (rev u)) = take (length (rev (dropWhile P (rev u)))) u" for u
    by (simp add: dropWhile_eq_drop rev_drop)
  then show ?thesis unfolding strip_chars_def by blast
qed

lemma strip_chars_trimmed: "trimmed P (strip_chars P s)"
proof (cases "strip_chars P s = []")
  case True
  then show ?thesis by (simp add: trimmed_def)
next
  case False
  let ?u = "dropWhile P s"
  have ne: "dropWhile P (rev ?u) \<noteq> []" using False by (simp add: strip_chars_def)
  have "last (strip_chars P s) = hd (dropWhile P (rev ?u))"
    using ne by (simp add: strip_chars_def last_rev)
  then have l: "\<not> P (last (strip_chars P s))" using hd_dropWhile[OF ne] by simp
  have une: "?u \<noteq> []" using ne by (cases "dropWhile P s") simp_all
  have "hd (strip_chars P s) = hd ?u"
    using False strip_chars_prefix[of P s] by (metis hd_take length_greater_0_conv)
  then have "\<not> P (hd (strip_chars P s))" using hd_dropWhile[OF une] by simp
  with l show ?thesis by (simp add: trimmed_def)
qed

lemma strip_chars_id: "trimmed P s \<Longrightarrow> strip_chars P s = s"
proof (cases "s = []")
  case True then show ?thesis by (simp add: strip_chars_def)
next
  case False
  assume "trimmed P s"
  with False have h: "\<not> P (hd s)" and l: "\<not> P (last s)" by (auto simp: trimmed_def)
  from False h have 1: "dropWhile P s = s" by (cases s) auto
  from False l have "\<not> P (hd (rev s))" by (simp add: hd_rev)
  with False have 2: "dropWhile P (rev s) = rev s" by (cases "rev s") auto
  show ?thesis by (simp add: strip_chars_def 1 2)
qed

lemma strip_chars_none: "\<forall>c\<in>set s. \<not> P c \<Longrightarrow> strip_chars P s = s"
  by (rule strip_chars_id) (auto simp: trimmed_def)

lemma sub_runs_none: "\<forall>c\<in>set s. \<not> P c \<Longrightarrow> sub_runs P r s = s"
  by (induction s) auto

lemma sub_runs_head:
  "s = [] \<or> \<not> P (hd s) \<Longrightarrow> sub_runs P r s = [] \<or> \<not> P (hd (sub_runs P r s))"
  by (cases s) auto

lemma dropWhile_head: "dropWhile P s = [] \<or> \<not> P (hd (dropWhile P s))"
  using hd_dropWhile by blast

lemma no_double_Cons: "no_double P (c # s) = ((s = [] \<or> \<not> (P c \<and> P (hd s))) \<and> no_double P s)"
  by (cases s) auto

lemma sub_runs_no_double: "P h \<Longrightarrow> no_double P (sub_runs P [h] s)"
proof (induction P "[h]" s rule: sub_runs.induct)
  case (1 P)
  then show ?case by simp
next
  case (2 P c cs)
  show ?case
  proof (cases "P c")
    case True
    have "sub_runs P [h] (dropWhile P cs) = [] \<or> \<not> P (hd (sub_runs P [h] (dropWhile P cs)))"
      by (rule sub_runs_head) (rule dropWhile_head)
    with True 2 show ?thesis by (auto simp: no_double_Cons)
  next
    case False
    with 2 show ?thesis by (auto simp: no_double_Cons)
  qed
qed

lemma sub_runs_id: "(\<And>c. P c \<Longrightarrow> c = h) \<Longrightarrow> no_double P s \<Longrightarrow> sub_runs P [h] s = s"
proof (induction P s rule: no_double.induct)
  case (1 P) then show ?case by simp
next
  case (2 P c) then show ?case by auto
next
  case (3 P c d cs)
  then show ?case by auto
qed

lemma set_sub_runs: "set (sub_runs P r s) \<subseteq> set s \<union> set r"
  by (induction P r s rule: sub_runs.induct) (auto dest: set_dropWhileD)

lemma set_strip_chars: "set (strip_chars P s) \<subseteq> set s"
  unfolding strip_chars_def by (auto dest!: set_dropWhileD)

lemma no_double_drop: "no_double P s \<Longrightarrow> no_double P (drop n s)"
proof (induction n arbitrary: s)
  case 0 then show ?case by simp
next
  case (Suc n)
  then show ?case by (cases s) (auto simp: no_double_Cons)
qed

lemma no_double_take: "no_double P s \<Longrightarrow> no_double P (take n s)"
proof (induction P s arbitrary: n rule: no_double.induct)
  case (1 P) then show ?case by simp
next
  case (2 P c) then show ?case by (cases n) auto
next
  case (3 P c d cs)
  show ?case
  proof (cases n)
    case 0 then show ?thesis by simp
  next
    case (Suc m)
    have "no_double P (take m (d # cs))" using 3 by simp
    with 3(2) Suc show ?thesis by (cases m) (auto simp: no_double_Cons)
  qed
qed

lemma no_double_strip_chars: "no_double P s \<Longrightarrow> no_double P (strip_chars Q s)"
  by (subst strip_chars_prefix) (simp add: dropWhile_eq_drop no_double_take no_double_drop)

lemma clean_slug_canonical: "canonical (clean_slug x)"
proof (cases "x = []")
  case True
  then show ?thesis by (simp add: clean_slug_def canonical_def trimmed_def)
next
  case False
  define s3 where "s3 = filter slug_char (sub_runs isspace ''-'' (strip (lower x)))"
  define s4 where "s4 = sub_runs is_hyphen ''-'' s3"
  have eq: "clean_slug x = strip_chars is_hyphen s4"
    using False by (simp add: clean_slug_def s3_def s4_def Let_def)
  have "set s4 \<subseteq> set s3 \<union> set ''-''" unfolding s4_def by (rule set_sub_runs)
  moreover have "\<forall>c\<in>set s3. slug_char c" by (simp add: s3_def)
  ultimately have "\<forall>c\<in>set s4. slug_char c" by (auto simp: slug_char_def)
  then have a: "list_all slug_char (strip_chars is_hyphen s4)"
    using set_strip_chars[of is_hyphen s4] by (auto simp: list_all_iff)
  have "no_double is_hyphen s4" unfolding s4_def
    by (rule sub_runs_no_double) (simp add: is_hyphen_def)
  then have b: "no_double is_hyphen (strip_chars is_hyphen s4)" by (rule no_double_strip_chars)
  show ?thesis unfolding eq canonical_def using a b strip_chars_trimmed by simp
qed

lemma canonical_clean_slug: "canonical s \<Longrightarrow> clean_slug s = s"
proof -
  assume c: "canonical s"
  then have sc: "list_all slug_char s" and nd: "no_double is_hyphen s" and tr: "trimmed is_hyphen s"
    by (simp_all add: canonical_def)
  have ns: "\<forall>c\<in>set s. \<not> isspace c" using sc by (auto simp: list_all_iff slug_char_not_space)
  have 1: "strip (lower s) = s" using ns by (simp add: lower_slug_chars[OF sc] strip_def strip_chars_none)
  have 2: "sub_runs isspace ''-'' s = s" using ns by (rule sub_runs_none)
  have 3: "filter slug_char s = s" using sc by (simp add: list_all_iff)
  have 4: "sub_runs is_hyphen ''-'' s = s" by (rule sub_runs_id[OF _ nd]) (simp add: is_hyphen_def)
  have 5: "strip_chars is_hyphen s = s" using tr by (rule strip_chars_id)
  show ?thesis by (simp add: clean_slug_def Let_def 1 2 3 4 5)
qed

text \<open>
  C6: normalisation is idempotent. Cleaning the result of \<open>clean_slug\<close> again returns it
  unchanged, for every input string.
\<close>

theorem clean_slug_idempotent: "clean_slug (clean_slug x) = clean_slug x"
  by (rule canonical_clean_slug) (rule clean_slug_canonical)

section \<open>The validator and a trailing line feed\<close>

lemma newline_slug_checks:
  "re_match_slug ''abc\<newline>''"
  "\<not> startswith ''abc\<newline>'' ''-''"
  "\<not> endswith ''abc\<newline>'' ''-''"
  "\<not> contains ''abc\<newline>'' ''--''"
  "''abc\<newline>'' \<notin> set reserved_words"
  by (simp_all add: re_match_slug_def slug_char_def startswith_def endswith_def reserved_words_def)

lemma newline_slug_valid: "validate_slug ''abc\<newline>'' = (True, ''Valid slug'')"
  using newline_slug_checks by (simp add: validate_slug_def)

text \<open>
  What the pattern accepts: the non-empty strings over the class, and those followed by
  one line feed.
\<close>

lemma re_match_slug_iff:
  "re_match_slug s \<longleftrightarrow>
     (s \<noteq> [] \<and> list_all slug_char s) \<or>
     (\<exists>b. b \<noteq> [] \<and> list_all slug_char b \<and> s = b @ [CHR 0x0A])"
proof
  assume m: "re_match_slug s"
  have split: "s = takeWhile slug_char s @ dropWhile slug_char s" by simp
  have all: "list_all slug_char (takeWhile slug_char s)"
    by (auto simp: list_all_iff dest: set_takeWhileD)
  from m have ne: "takeWhile slug_char s \<noteq> []"
    and d: "dropWhile slug_char s = [] \<or> dropWhile slug_char s = [CHR 0x0A]"
    by (simp_all add: re_match_slug_def)
  from d show "(s \<noteq> [] \<and> list_all slug_char s) \<or>
     (\<exists>b. b \<noteq> [] \<and> list_all slug_char b \<and> s = b @ [CHR 0x0A])"
  proof
    assume "dropWhile slug_char s = []"
    with split have "s = takeWhile slug_char s" by simp
    with ne all show ?thesis by metis
  next
    assume "dropWhile slug_char s = [CHR 0x0A]"
    with split have "s = takeWhile slug_char s @ [CHR 0x0A]" by simp
    with ne all show ?thesis by blast
  qed
next
  assume "(s \<noteq> [] \<and> list_all slug_char s) \<or>
     (\<exists>b. b \<noteq> [] \<and> list_all slug_char b \<and> s = b @ [CHR 0x0A])"
  then show "re_match_slug s"
  proof
    assume a: "s \<noteq> [] \<and> list_all slug_char s"
    then have tw: "takeWhile slug_char s = s" and dw: "dropWhile slug_char s = []"
      by (simp_all add: list_all_iff)
    show ?thesis using a by (simp add: re_match_slug_def tw dw)
  next
    assume "\<exists>b. b \<noteq> [] \<and> list_all slug_char b \<and> s = b @ [CHR 0x0A]"
    then obtain b where b: "b \<noteq> []" "list_all slug_char b" "s = b @ [CHR 0x0A]" by blast
    have nl: "\<not> slug_char (CHR 0x0A)" by (simp add: slug_char_def)
    from b(2) have "takeWhile slug_char (b @ [CHR 0x0A]) = b"
      "dropWhile slug_char (b @ [CHR 0x0A]) = [CHR 0x0A]"
      using nl by (simp_all add: list_all_iff takeWhile_append2 dropWhile_append2)
    with b show ?thesis by (simp add: re_match_slug_def)
  qed
qed

text \<open>
  C1: \<open>validate_slug\<close> is to succeed exactly when all six checks pass, the third being
  that the slug consists of characters of \<open>[a-z0-9-]\<close> only. The pattern ends in \<open>$\<close>,
  which also matches before a final line feed, so the slug \<open>abc\<close> followed by a line feed
  is reported valid although it has a character outside the class.
\<close>

theorem validate_slug_trailing_newline:
  "validate_slug ''abc\<newline>'' = (True, ''Valid slug'') \<and>
   \<not> list_all slug_char ''abc\<newline>''"
  by (simp add: newline_slug_valid) (simp add: slug_char_def)

lemma clean_newline: "clean_slug ''abc\<newline>'' = ''abc''"
  by code_simp

text \<open>
  An accepted slug that consists of class characters only is a fixpoint of the cleaning.
\<close>

lemma not_contains_no_double: "\<not> contains s ''--'' \<Longrightarrow> no_double is_hyphen s"
  by (induction is_hyphen s rule: no_double.induct) (auto simp: startswith_def is_hyphen_def)

lemma not_startswith_endswith_trimmed:
  assumes "\<not> startswith s ''-''" "\<not> endswith s ''-''"
  shows "trimmed is_hyphen s"
proof (cases "s = []")
  case True
  then show ?thesis by (simp add: trimmed_def)
next
  case False
  then have "take 1 s = [hd s]" by (cases s) simp_all
  with assms(1) have h: "\<not> is_hyphen (hd s)" by (simp add: startswith_def is_hyphen_def)
  from False have "drop (length s - 1) s = [last s]"
    by (induction s rule: rev_induct) simp_all
  with assms(2) False have "\<not> is_hyphen (last s)"
    by (cases s) (simp_all add: endswith_def is_hyphen_def)
  with h show ?thesis by (simp add: trimmed_def)
qed

lemma valid_exact_fixpoint:
  assumes "fst (validate_slug s)" "list_all slug_char s"
  shows "clean_slug s = s"
proof -
  from assms(1) have "\<not> startswith s ''-''" "\<not> endswith s ''-''" "\<not> contains s ''--''"
    by (auto simp: validate_slug_def split: if_splits)
  then have "canonical s"
    using assms(2) by (simp add: canonical_def not_contains_no_double not_startswith_endswith_trimmed)
  then show ?thesis by (rule canonical_clean_slug)
qed

text \<open>
  C7: every slug the validator accepts is to be a fixpoint of \<open>clean_slug\<close>. The slug
  \<open>abc\<close> followed by a line feed is accepted, and cleaning it removes the line feed.
\<close>

theorem valid_slug_not_fixpoint:
  "fst (validate_slug ''abc\<newline>'') \<and>
   clean_slug ''abc\<newline>'' \<noteq> ''abc\<newline>''"
  by (simp add: newline_slug_valid clean_newline)

section \<open>The uniqueness check\<close>

lemma set_dropna: "set (dropna xs) = {v. Some v \<in> set xs}"
  by (induction xs) (auto split: option.splits)

lemma loaded_ids: "load_products st = Some df \<Longrightarrow> p \<in> set df \<Longrightarrow> record_id p \<noteq> [] \<and> record_id p \<noteq> ''nan''"
  by (auto simp: load_products_def)

lemma lower_Nil_iff: "lower s = [] \<longleftrightarrow> s = []"
  by (simp add: lower_def)

text \<open>On a slug column without a string every candidate is reported unavailable.\<close>

lemma check_slug_uniqueness_float:
  "\<not> slug_column_is_text st \<Longrightarrow> \<not> check_slug_uniqueness st slug ex"
  by (simp add: check_slug_uniqueness_def Let_def split: option.splits)

text \<open>
  On a slug column that holds a string the check consults the lower-cased slugs that are
  not missing, the empty string among them, of the products with another id.
\<close>

lemma check_slug_uniqueness_index:
  assumes "load_products st = Some df" "slug_column_is_text st"
  shows "check_slug_uniqueness st slug ex =
           (lower slug \<notin> set (map lower (dropna (map URL_Slug
               (filter (\<lambda>p. Some (record_id p) \<noteq> ex) df)))))"
proof (cases "truthy ex")
  case True
  then obtain r where "ex = Some r" by (cases ex) (auto simp: truthy_def)
  then show ?thesis using assms True by (simp add: check_slug_uniqueness_def Let_def)
next
  case False
  have "filter (\<lambda>p. Some (record_id p) \<noteq> ex) df = df"
  proof (cases ex)
    case None then show ?thesis by simp
  next
    case (Some r)
    with False have "r = []" by (simp add: truthy_def)
    with Some show ?thesis using loaded_ids[OF assms(1)] by (auto simp: filter_id_conv)
  qed
  then show ?thesis using assms False by (simp add: check_slug_uniqueness_def Let_def)
qed

text \<open>
  There, for every candidate that is not empty, the check agrees with the index of the
  specification.
\<close>

lemma check_slug_uniqueness_nonempty:
  assumes "load_products st = Some df" "slug_column_is_text st" "slug \<noteq> []"
  shows "check_slug_uniqueness st slug ex = (lower slug \<notin> set (spec_slug_index df ex))"
proof -
  let ?A = "set (dropna (map URL_Slug (filter (\<lambda>p. Some (record_id p) \<noteq> ex) df)))"
  have "lower slug \<in> lower ` ?A \<longleftrightarrow> lower slug \<in> lower ` {x \<in> ?A. x \<noteq> []}"
  proof
    assume "lower slug \<in> lower ` ?A"
    then obtain x where x: "x \<in> ?A" "lower slug = lower x" by blast
    with assms(3) have "x \<noteq> []" by (metis lower_Nil_iff)
    with x show "lower slug \<in> lower ` {x \<in> ?A. x \<noteq> []}" by blast
  qed blast
  then show ?thesis
    by (simp add: check_slug_uniqueness_index[OF assms(1,2)] spec_slug_index_def)
qed

lemma unavailable_if_assigned:
  "load_products st = Some df \<Longrightarrow> Some s \<in> set (map URL_Slug df) \<Longrightarrow>
   \<not> check_slug_availability st s None"
  by (auto simp: check_slug_availability_def check_slug_uniqueness_def truthy_def set_dropna Let_def)

text \<open>
  C3: a slug is to be available exactly when its lower-cased form is not among the
  lower-cased non-empty slugs of the other products. In a table none of whose products
  has a slug that set is empty, so every candidate is to be available; the check reads
  the column as numbers, fails on \<open>.str\<close>, and reports the candidate \<open>shoes\<close> unavailable.
\<close>

theorem unassigned_table_unavailable:
  "\<not> check_slug_uniqueness unassigned_store ''shoes'' None \<and>
   spec_slug_index (the (load_products unassigned_store)) None = []"
  by (simp add: check_slug_uniqueness_def slug_column_is_text_def load_products_def
        unassigned_store_def slug_row_def truthy_def spec_slug_index_def)

section \<open>Suggesting a slug\<close>

lemma try_numbered_None:
  "\<forall>i\<in>set ns. \<not> check_slug_availability st (b @ ''-'' @ str_of_nat i) None \<Longrightarrow>
   try_numbered st b ns = None"
  by (induction ns) (simp_all add: Let_def)


lemma try_numbered_Some:
  "try_numbered st b ns = Some r \<Longrightarrow> check_slug_availability st r None"
  by (induction ns) (auto simp: Let_def split: if_splits)


lemma taken_ids: "s \<in> set taken_slugs \<Longrightarrow> s \<noteq> [] \<and> s \<noteq> ''nan''"
  by (auto simp: taken_slugs_def simp del: upt_rec_numeral)

lemma taken_loaded:
  "load_products taken_store = Some (map (\<lambda>s. slug_row s None (Some s)) taken_slugs)"
  using taken_ids by (simp add: load_products_def taken_store_def slug_row_def filter_map o_def)

lemma clean_abc: "clean_slug ''abc'' = ''abc''"
  by (rule canonical_clean_slug) (simp add: canonical_def slug_char_def is_hyphen_def trimmed_def)

lemma taken_unavailable: "s \<in> set taken_slugs \<Longrightarrow> \<not> check_slug_availability taken_store s None"
  by (rule unavailable_if_assigned[OF taken_loaded]) (simp add: slug_row_def image_iff o_def)

text \<open>
  C2, as stated: a non-empty suggestion is always available. When the cleaned name and
  all of its numbered variants are taken, \<open>suggest_slug\<close> returns the date variant
  without checking it; in \<open>taken_store\<close> on the first of January that variant is taken too.
\<close>

theorem suggest_slug_fallback_taken:
  "suggest_slug ''0101'' taken_store (Some ''abc'') = ''abc-0101'' \<and>
   \<not> check_slug_availability taken_store ''abc-0101'' None"
proof -
  have a: "\<not> check_slug_availability taken_store ''abc'' None"
    by (rule taken_unavailable) (simp add: taken_slugs_def del: upt_rec_numeral)
  have "try_numbered taken_store ''abc'' [2..<100] = None"
  proof (rule try_numbered_None, rule ballI)
    fix i :: nat assume "i \<in> set [2..<100]"
    then have "''abc'' @ ''-'' @ str_of_nat i \<in> set taken_slugs"
      unfolding taken_slugs_def by (auto simp del: upt_rec_numeral)
    then show "\<not> check_slug_availability taken_store (''abc'' @ ''-'' @ str_of_nat i) None"
      by (rule taken_unavailable)
  qed
  then have "suggest_slug ''0101'' taken_store (Some ''abc'') = ''abc-0101''"
    using a by (simp add: suggest_slug_def clean_abc del: upt_rec_numeral)
  moreover have "\<not> check_slug_availability taken_store ''abc-0101'' None"
    by (rule taken_unavailable) (simp add: taken_slugs_def del: upt_rec_numeral)
  ultimately show ?thesis by simp
qed

lemma available_iff:
  "check_slug_availability st r None \<longleftrightarrow>
     slug_column_is_text st \<and>
     (\<exists>df. load_products st = Some df \<and>
           (\<forall>p\<in>set df. \<forall>s. URL_Slug p = Some s \<longrightarrow> lower s \<noteq> lower r))"
proof (cases "load_products st")
  case None
  then show ?thesis by (simp add: check_slug_availability_def check_slug_uniqueness_def)
next
  case (Some df)
  have "lower r \<in> lower ` {v. Some v \<in> URL_Slug ` set df} \<longleftrightarrow>
        (\<exists>p\<in>set df. \<exists>s. URL_Slug p = Some s \<and> lower s = lower r)"
  proof
    assume "lower r \<in> lower ` {v. Some v \<in> URL_Slug ` set df}"
    then obtain v p where "p \<in> set df" "URL_Slug p = Some v" "lower r = lower v"
      by (auto simp: image_iff) metis
    then show "\<exists>p\<in>set df. \<exists>s. URL_Slug p = Some s \<and> lower s = lower r" by auto
  next
    assume "\<exists>p\<in>set df. \<exists>s. URL_Slug p = Some s \<and> lower s = lower r"
    then obtain p s where p: "p \<in> set df" "URL_Slug p = Some s" "lower s = lower r" by blast
    then have "Some s \<in> URL_Slug ` set df" by (metis image_eqI)
    with p(3) show "lower r \<in> lower ` {v. Some v \<in> URL_Slug ` set df}"
      by (metis (mono_tags, lifting) image_eqI mem_Collect_eq)
  qed
  then show ?thesis
    by (simp add: check_slug_availability_def check_slug_uniqueness_def Some truthy_def
          set_dropna Let_def)
qed

text \<open>
  C2, amended: a non-empty suggestion other than the date variant is available: no
  product of the table has it as slug, compared without regard to case.
\<close>

theorem suggest_slug_available:
  assumes "suggest_slug mmdd st (Some name) \<noteq> []"
    and "suggest_slug mmdd st (Some name) \<noteq> clean_slug name @ ''-'' @ mmdd"
  shows "check_slug_availability st (suggest_slug mmdd st (Some name)) None \<and>
         (\<exists>df. load_products st = Some df \<and>
               (\<forall>p\<in>set df. \<forall>s. URL_Slug p = Some s \<longrightarrow>
                  lower s \<noteq> lower (suggest_slug mmdd st (Some name))))"
proof -
  have "check_slug_availability st (suggest_slug mmdd st (Some name)) None"
    using assms
    by (auto simp: suggest_slug_def Let_def simp del: upt_rec_numeral
             split: if_splits option.splits dest: try_numbered_Some)
  then show ?thesis using available_iff by blast
qed

lemma clean_shoes: "clean_slug ''Shoes!!'' = ''shoes''"
  by code_simp

lemma shoes_loaded:
  "load_products shoes_store =
     Some [slug_row ''1'' (Some ''Shoes'') (Some ''shoes''),
           slug_row ''2'' (Some ''Shoes'') (Some ''shoes-2'')]"
  by (simp add: load_products_def shoes_store_def slug_row_def)

lemma shoes_text: "slug_column_is_text shoes_store"
  by (simp add: slug_column_is_text_def shoes_store_def slug_row_def)

lemma shoes_availability:
  "\<not> check_slug_availability shoes_store ''shoes'' None"
  "\<not> check_slug_availability shoes_store ''shoes-2'' None"
  "check_slug_availability shoes_store ''shoes-3'' None"
  by (simp_all add: check_slug_availability_def check_slug_uniqueness_def shoes_loaded shoes_text
        truthy_def slug_row_def lower_def lower_char_def)

lemma str_of_nat_2_3: "str_of_nat 2 = ''2''" "str_of_nat 3 = ''3''"
  by code_simp+

theorem suggest_slug_available_witness:
  "suggest_slug ''1104'' shoes_store (Some ''Shoes!!'') \<noteq> [] \<and>
   suggest_slug ''1104'' shoes_store (Some ''Shoes!!'') \<noteq> clean_slug ''Shoes!!'' @ ''-'' @ ''1104'' \<and>
   check_slug_availability shoes_store (suggest_slug ''1104'' shoes_store (Some ''Shoes!!'')) None"
proof -
  have e: "suggest_slug ''1104'' shoes_store (Some ''Shoes!!'') = ''shoes-3''"
    by (simp add: suggest_slug_def clean_shoes shoes_availability str_of_nat_2_3 Let_def)
  have h1: "suggest_slug ''1104'' shoes_store (Some ''Shoes!!'') \<noteq> []" by (simp add: e)
  have h2: "suggest_slug ''1104'' shoes_store (Some ''Shoes!!'') \<noteq> clean_slug ''Shoes!!'' @ ''-'' @ ''1104''"
    by (simp add: e clean_shoes)
  from suggest_slug_available[OF h1 h2] h1 h2 show ?thesis by simp
qed



section \<open>Updating the slug of one product\<close>

lemma set_slug_record_id: "record_id (set_slug rid new_slug p) = record_id p"
  by (simp add: set_slug_def)




lemma boots_checks:
  "re_match_slug ''boots''"
  "\<not> startswith ''boots'' ''-''"
  "\<not> endswith ''boots'' ''-''"
  "\<not> contains ''boots'' ''--''"
  "''boots'' \<notin> set reserved_words"
  by (simp_all add: re_match_slug_def slug_char_def startswith_def endswith_def reserved_words_def)

lemma boots_valid: "validate_slug ''boots'' = (True, ''Valid slug'')"
  using boots_checks by (simp add: validate_slug_def)

lemma boots_available: "check_slug_availability shoes_store ''boots'' (Some rid)"
  by (simp add: check_slug_availability_def check_slug_uniqueness_def shoes_loaded shoes_text
        truthy_def slug_row_def lower_def lower_char_def Let_def)





text \<open>
  C10: when no product has the given id, \<open>update_product_slug\<close> returns \<open>False\<close> and the
  store is unchanged, no save having been attempted; a bulk item with such an id whose
  slug is valid and available is reported as a failed database update, and the store is
  unchanged.
\<close>

theorem update_unknown_record:
  assumes "load_products st = Some df" "rid \<notin> set (map record_id df)"
  shows "update_product_slug io rid new_slug st = (False, st) \<and>
         (rid \<noteq> [] \<and> fst (validate_slug new_slug) \<and>
          check_slug_availability st new_slug (Some rid) \<longrightarrow>
            bulk_update_slugs io [\<lparr>upd_record_id = Some rid, upd_new_slug = Some new_slug\<rparr>] st =
              ([\<lparr>out_record_id = Some rid, success = False,
                 error = Some ''Failed to update database''\<rparr>], st))"
proof -
  have u: "update_product_slug io rid new_slug st = (False, st)"
    using assms by (simp add: update_product_slug_def)
  have "bulk_step io \<lparr>upd_record_id = Some rid, upd_new_slug = Some new_slug\<rparr> st =
          (\<lparr>out_record_id = Some rid, success = False,
            error = Some ''Failed to update database''\<rparr>, st)"
    if a: "rid \<noteq> []" and b: "fst (validate_slug new_slug)"
      and c: "check_slug_availability st new_slug (Some rid)"
  proof -
    from b have ne: "new_slug \<noteq> []" by (auto simp: validate_slug_def)
    obtain m where m: "validate_slug new_slug = (True, m)"
      using b by (cases "validate_slug new_slug") simp
    show ?thesis
      using a c ne by (simp add: bulk_step_def truthy_def u m)
  qed
  then show ?thesis using u by simp
qed

theorem update_unknown_record_witness:
  "load_products shoes_store =
     Some [slug_row ''1'' (Some ''Shoes'') (Some ''shoes''),
           slug_row ''2'' (Some ''Shoes'') (Some ''shoes-2'')] \<and>
   ''9'' \<notin> set (map record_id [slug_row ''1'' (Some ''Shoes'') (Some ''shoes''),
                                  slug_row ''2'' (Some ''Shoes'') (Some ''shoes-2'')]) \<and>
   fst (validate_slug ''boots'') \<and> check_slug_availability shoes_store ''boots'' (Some ''9'') \<and>
   update_product_slug (\<lambda>n. True) ''9'' ''boots'' shoes_store = (False, shoes_store) \<and>
   bulk_update_slugs (\<lambda>n. True) [\<lparr>upd_record_id = Some ''9'', upd_new_slug = Some ''boots''\<rparr>]
       shoes_store =
     ([\<lparr>out_record_id = Some ''9'', success = False,
        error = Some ''Failed to update database''\<rparr>], shoes_store)"
proof -
  let ?rows = "[slug_row ''1'' (Some ''Shoes'') (Some ''shoes''),
                slug_row ''2'' (Some ''Shoes'') (Some ''shoes-2'')]"
  have h1: "load_products shoes_store = Some ?rows" by (rule shoes_loaded)
  have h2: "''9'' \<notin> set (map record_id ?rows)" by (simp add: slug_row_def)
  have h3: "''9'' \<noteq> [] \<and> fst (validate_slug ''boots'') \<and>
            check_slug_availability shoes_store ''boots'' (Some ''9'')"
    by (simp add: boots_valid boots_available)
  from update_unknown_record[OF h1 h2, of "\<lambda>n. True" "''boots''"] h1 h2 h3
  show ?thesis by blast
qed

section \<open>The duplicate counter of the slug analysis\<close>

lemma analyze_rows_append:
  "analyze_rows mmdd st acc (xs @ ys) = analyze_rows mmdd st (analyze_rows mmdd st acc xs) ys"
  by (induction xs arbitrary: acc) simp_all

lemma analyze_step_counts:
  "snd (analyze_step mmdd st (a, m) p) =
     (if no_slug (URL_Slug p) then m
      else m(the (URL_Slug p) \<mapsto> (case m (the (URL_Slug p)) of None \<Rightarrow> 1 | Some c \<Rightarrow> c + 1)))"
  by (simp add: analyze_step_def Let_def split: option.splits prod.splits)

lemma analyze_step_duplicates:
  "duplicate_slugs (fst (analyze_step mmdd st (a, m) p)) =
     duplicate_slugs a +
     (if no_slug (URL_Slug p) then 0
      else case m (the (URL_Slug p)) of None \<Rightarrow> 0 | Some c \<Rightarrow> if c = 1 then 2 else 1)"
  by (simp add: analyze_step_def Let_def split: option.splits prod.splits)

lemma length_filter_split:
  "length (filter P xs) =
     length (filter (\<lambda>s. s = x \<and> P s) xs) + length (filter (\<lambda>s. s \<noteq> x \<and> P s) xs)"
  by (induction xs) auto

lemma length_filter_value:
  "length (filter (\<lambda>s. s = x \<and> P s) xs) = (if P x then count_list xs x else 0)"
  by (induction xs) auto

lemma shared_snoc:
  "length (filter (\<lambda>s. 2 \<le> count_list (ys @ [x]) s) (ys @ [x])) =
     length (filter (\<lambda>s. 2 \<le> count_list ys s) ys) +
     (if count_list ys x = 0 then 0 else if count_list ys x = 1 then 2 else 1)"
proof -
  let ?P = "\<lambda>s. 2 \<le> count_list ys s"
  let ?P' = "\<lambda>s. 2 \<le> count_list (ys @ [x]) s"
  have other: "filter (\<lambda>s. s \<noteq> x \<and> ?P' s) ys = filter (\<lambda>s. s \<noteq> x \<and> ?P s) ys"
    by (rule filter_cong) auto
  have old: "length (filter ?P ys) =
      (if 2 \<le> count_list ys x then count_list ys x else 0) +
      length (filter (\<lambda>s. s \<noteq> x \<and> ?P s) ys)"
  proof -
    have "length (filter ?P ys) =
        length (filter (\<lambda>s. s = x \<and> ?P s) ys) + length (filter (\<lambda>s. s \<noteq> x \<and> ?P s) ys)"
      by (rule length_filter_split)
    moreover have "length (filter (\<lambda>s. s = x \<and> ?P s) ys) =
        (if 2 \<le> count_list ys x then count_list ys x else 0)"
      by (rule length_filter_value)
    ultimately show ?thesis by (simp only:)
  qed
  have new: "length (filter ?P' ys) =
      (if 1 \<le> count_list ys x then count_list ys x else 0) +
      length (filter (\<lambda>s. s \<noteq> x \<and> ?P s) ys)"
  proof -
    have "length (filter ?P' ys) =
        length (filter (\<lambda>s. s = x \<and> ?P' s) ys) + length (filter (\<lambda>s. s \<noteq> x \<and> ?P' s) ys)"
      by (rule length_filter_split)
    moreover have "length (filter (\<lambda>s. s = x \<and> ?P' s) ys) =
        (if ?P' x then count_list ys x else 0)"
      by (rule length_filter_value)
    moreover have "?P' x \<longleftrightarrow> 1 \<le> count_list ys x" by simp
    ultimately show ?thesis by (simp only: other)
  qed
  have "length (filter ?P' (ys @ [x])) =
      length (filter ?P' ys) + (if 1 \<le> count_list ys x then 1 else 0)"
    by simp
  then show ?thesis unfolding new old by (simp split: if_splits)
qed

lemma length_filter_sum_count:
  "length (filter P xs) = (\<Sum>v\<in>set xs. if P v then count_list xs v else 0)"
proof -
  have "length (filter P xs) = sum_list (map (\<lambda>x. if P x then 1 else 0) xs)"
    by (induction xs) simp_all
  also have "\<dots> = (\<Sum>v\<in>set xs. count_list xs v * (if P v then 1 else 0))"
    by (rule sum_list_map_eq_sum_count)
  also have "\<dots> = (\<Sum>v\<in>set xs. if P v then count_list xs v else 0)"
    by (rule sum.cong) simp_all
  finally show ?thesis .
qed

lemma assigned_slugs_snoc:
  "assigned_slugs (xs @ [p]) =
     assigned_slugs xs @ (if no_slug (URL_Slug p) then [] else [the (URL_Slug p)])"
  by (simp add: assigned_slugs_def)

lemma analyze_rows_invariant:
  "snd (analyze_rows mmdd st (a0, Map.empty) xs) =
     (\<lambda>s. if count_list (assigned_slugs xs) s = 0 then None
          else Some (count_list (assigned_slugs xs) s)) \<and>
   duplicate_slugs (fst (analyze_rows mmdd st (a0, Map.empty) xs)) =
     duplicate_slugs a0 +
     length (filter (\<lambda>s. 2 \<le> count_list (assigned_slugs xs) s) (assigned_slugs xs))"
proof (induction xs rule: rev_induct)
  case Nil
  then show ?case by (simp add: assigned_slugs_def)
next
  case (snoc p xs)
  obtain a m where am: "analyze_rows mmdd st (a0, Map.empty) xs = (a, m)"
    by (cases "analyze_rows mmdd st (a0, Map.empty) xs")
  with snoc have m: "m = (\<lambda>s. if count_list (assigned_slugs xs) s = 0 then None
                            else Some (count_list (assigned_slugs xs) s))"
    and d: "duplicate_slugs a = duplicate_slugs a0 +
        length (filter (\<lambda>s. 2 \<le> count_list (assigned_slugs xs) s) (assigned_slugs xs))"
    by simp_all
  have step: "analyze_rows mmdd st (a0, Map.empty) (xs @ [p]) = analyze_step mmdd st (a, m) p"
    by (simp add: analyze_rows_append am)
  show ?case
  proof (cases "no_slug (URL_Slug p)")
    case True
    then have as: "assigned_slugs (xs @ [p]) = assigned_slugs xs"
      by (simp add: assigned_slugs_snoc)
    show ?thesis
      unfolding step as using True m d
      by (simp add: analyze_step_counts analyze_step_duplicates)
  next
    case False
    then have as: "assigned_slugs (xs @ [p]) = assigned_slugs xs @ [the (URL_Slug p)]"
      by (simp add: assigned_slugs_snoc)
    have counts: "snd (analyze_step mmdd st (a, m) p) =
        (\<lambda>s. if count_list (assigned_slugs (xs @ [p])) s = 0 then None
             else Some (count_list (assigned_slugs (xs @ [p])) s))"
      unfolding analyze_step_counts as using False
      by (auto simp: m fun_eq_iff)
    have dups: "duplicate_slugs (fst (analyze_step mmdd st (a, m) p)) =
        duplicate_slugs a0 +
        length (filter (\<lambda>s. 2 \<le> count_list (assigned_slugs (xs @ [p])) s)
                  (assigned_slugs (xs @ [p])))"
      unfolding analyze_step_duplicates as shared_snoc using False
      by (simp add: d m)
    show ?thesis unfolding step using counts dups by simp
  qed
qed

lemma duplicate_slugs_shared:
  "duplicate_slugs (analyze_slug_performance mmdd st df) =
     length (filter (\<lambda>s. 2 \<le> count_list (assigned_slugs df) s) (assigned_slugs df))"
  unfolding analyze_slug_performance_def using analyze_rows_invariant by simp

lemma filter_assigned_slugs:
  "length (filter Q (assigned_slugs df)) =
     length (filter (\<lambda>p. \<not> no_slug (URL_Slug p) \<and> Q (the (URL_Slug p))) df)"
  by (simp add: assigned_slugs_def filter_map o_def conj_commute)

lemma shared_products:
  "length (filter (\<lambda>s. 2 \<le> count_list (assigned_slugs df) s) (assigned_slugs df)) =
     length (filter (\<lambda>p. \<not> no_slug (URL_Slug p) \<and>
                          2 \<le> count_list (assigned_slugs df) (the (URL_Slug p))) df)"
  by (rule filter_assigned_slugs)

text \<open>
  C9: the duplicate counter of \<open>analyze_slug_performance\<close> equals the number of products
  whose slug (neither missing nor empty, compared exactly) is the slug of at least one
  other product, which is the sum, over the slug values that occur \<open>k \<ge> 2\<close> times, of
  \<open>k\<close>. Row by row, the counter grows by 2 when the slug of the row was seen exactly once
  before, by 1 when it was seen more often, and not at all otherwise.
\<close>

theorem duplicate_slugs_count:
  "duplicate_slugs (analyze_slug_performance mmdd st df) =
     length (filter (\<lambda>p. \<not> no_slug (URL_Slug p) \<and>
                          2 \<le> count_list (assigned_slugs df) (the (URL_Slug p))) df) \<and>
   duplicate_slugs (analyze_slug_performance mmdd st df) =
     (\<Sum>v\<in>set (assigned_slugs df).
        if 2 \<le> count_list (assigned_slugs df) v then count_list (assigned_slugs df) v else 0) \<and>
   (\<forall>i<length df.
      duplicate_slugs (analyze_slug_performance mmdd st (take (Suc i) df)) =
        duplicate_slugs (analyze_slug_performance mmdd st (take i df)) +
        (if no_slug (URL_Slug (df ! i)) then 0
         else if count_list (assigned_slugs (take i df)) (the (URL_Slug (df ! i))) = 0 then 0
         else if count_list (assigned_slugs (take i df)) (the (URL_Slug (df ! i))) = 1 then 2
         else 1))"
proof (intro conjI allI impI)
  show "duplicate_slugs (analyze_slug_performance mmdd st df) =
     length (filter (\<lambda>p. \<not> no_slug (URL_Slug p) \<and>
                          2 \<le> count_list (assigned_slugs df) (the (URL_Slug p))) df)"
    by (simp only: duplicate_slugs_shared shared_products)
next
  show "duplicate_slugs (analyze_slug_performance mmdd st df) =
     (\<Sum>v\<in>set (assigned_slugs df).
        if 2 \<le> count_list (assigned_slugs df) v then count_list (assigned_slugs df) v else 0)"
    by (simp only: duplicate_slugs_shared length_filter_sum_count)
next
  fix i assume i: "i < length df"
  let ?ys = "assigned_slugs (take i df)"
  have t: "take (Suc i) df = take i df @ [df ! i]"
    using i by (rule take_Suc_conv_app_nth)
  show "duplicate_slugs (analyze_slug_performance mmdd st (take (Suc i) df)) =
        duplicate_slugs (analyze_slug_performance mmdd st (take i df)) +
        (if no_slug (URL_Slug (df ! i)) then 0
         else if count_list ?ys (the (URL_Slug (df ! i))) = 0 then 0
         else if count_list ?ys (the (URL_Slug (df ! i))) = 1 then 2
         else 1)"
  proof (cases "no_slug (URL_Slug (df ! i))")
    case True
    then have "assigned_slugs (take (Suc i) df) = ?ys"
      by (simp add: t assigned_slugs_snoc)
    with True show ?thesis by (simp add: duplicate_slugs_shared)
  next
    case False
    then have "assigned_slugs (take (Suc i) df) = ?ys @ [the (URL_Slug (df ! i))]"
      by (simp add: t assigned_slugs_snoc)
    with False show ?thesis by (simp only: duplicate_slugs_shared shared_snoc if_False)
  qed
qed

theorem duplicate_slugs_count_witness:
  "1 < length triple_rows \<and>
   duplicate_slugs (analyze_slug_performance ''1104'' shoes_store triple_rows) = 3 \<and>
   duplicate_slugs (analyze_slug_performance ''1104'' shoes_store (take 2 triple_rows)) =
     duplicate_slugs (analyze_slug_performance ''1104'' shoes_store (take 1 triple_rows)) + 2"
proof -
  have len: "1 < length triple_rows" by (simp add: triple_rows_def)
  have c: "\<not> no_slug (URL_Slug (triple_rows ! 1))"
    "count_list (assigned_slugs (take 1 triple_rows)) (the (URL_Slug (triple_rows ! 1))) = 1"
    by (simp_all add: triple_rows_def slug_row_def no_slug_def assigned_slugs_def)
  have n: "length (filter (\<lambda>p. \<not> no_slug (URL_Slug p) \<and>
              2 \<le> count_list (assigned_slugs triple_rows) (the (URL_Slug p))) triple_rows) = 3"
    by (simp add: triple_rows_def slug_row_def no_slug_def assigned_slugs_def)
  from duplicate_slugs_count[of "''1104''" shoes_store triple_rows]
  have a: "duplicate_slugs (analyze_slug_performance ''1104'' shoes_store triple_rows) =
      length (filter (\<lambda>p. \<not> no_slug (URL_Slug p) \<and>
              2 \<le> count_list (assigned_slugs triple_rows) (the (URL_Slug p))) triple_rows)"
    and b: "\<forall>i<length triple_rows.
      duplicate_slugs (analyze_slug_performance ''1104'' shoes_store (take (Suc i) triple_rows)) =
        duplicate_slugs (analyze_slug_performance ''1104'' shoes_store (take i triple_rows)) +
        (if no_slug (URL_Slug (triple_rows ! i)) then 0
         else if count_list (assigned_slugs (take i triple_rows)) (the (URL_Slug (triple_rows ! i))) = 0 then 0
         else if count_list (assigned_slugs (take i triple_rows)) (the (URL_Slug (triple_rows ! i))) = 1 then 2
         else 1)"
    by blast+
  from b len have "duplicate_slugs (analyze_slug_performance ''1104'' shoes_store (take (Suc 1) triple_rows)) =
        duplicate_slugs (analyze_slug_performance ''1104'' shoes_store (take 1 triple_rows)) +
        (if no_slug (URL_Slug (triple_rows ! 1)) then 0
         else if count_list (assigned_slugs (take 1 triple_rows)) (the (URL_Slug (triple_rows ! 1))) = 0 then 0
         else if count_list (assigned_slugs (take 1 triple_rows)) (the (URL_Slug (triple_rows ! 1))) = 1 then 2
         else 1)" by blast
  then have "duplicate_slugs (analyze_slug_performance ''1104'' shoes_store (take 2 triple_rows)) =
     duplicate_slugs (analyze_slug_performance ''1104'' shoes_store (take 1 triple_rows)) + 2"
    using c by (simp add: numeral_2_eq_2)
  with len a n show ?thesis by simp
qed

section \<open>Bulk update\<close>


































text \<open>
  The write of an item is seen by the items after it: of two items that propose the same
  slug for two products the first succeeds and the second finds the slug taken.
\<close>

lemma boots_saved:
  "update_product_slug (\<lambda>n. True) ''1'' ''boots'' shoes_store =
     (True, \<lparr>data_file = Some [slug_row ''1'' (Some ''Shoes'') (Some ''boots''),
                              slug_row ''2'' (Some ''Shoes'') (Some ''shoes-2'')],
             writes = Suc 0\<rparr>)"
proof -
  have "map (csv_reread \<circ> set_slug ''1'' ''boots'')
          [slug_row ''1'' (Some ''Shoes'') (Some ''shoes''),
           slug_row ''2'' (Some ''Shoes'') (Some ''shoes-2'')] =
        [slug_row ''1'' (Some ''Shoes'') (Some ''boots''),
         slug_row ''2'' (Some ''Shoes'') (Some ''shoes-2'')]"
    by (simp add: set_slug_def slug_row_def csv_reread_def read_cell_def na_values_def)
  then show ?thesis
    by (simp add: update_product_slug_def shoes_loaded save_products_def)
       (simp add: shoes_store_def slug_row_def)
qed

lemma boots_taken:
  "\<not> check_slug_availability
       \<lparr>data_file = Some [slug_row ''1'' (Some ''Shoes'') (Some ''boots''),
                          slug_row ''2'' (Some ''Shoes'') (Some ''shoes-2'')],
        writes = Suc 0\<rparr> ''boots'' (Some ''2'')"
  by (simp add: check_slug_availability_def check_slug_uniqueness_def load_products_def
        slug_column_is_text_def truthy_def slug_row_def lower_def lower_char_def Let_def)

lemma bulk_same_slug_twice:
  "fst (bulk_update_slugs (\<lambda>n. True)
          [\<lparr>upd_record_id = Some ''1'', upd_new_slug = Some ''boots''\<rparr>,
           \<lparr>upd_record_id = Some ''2'', upd_new_slug = Some ''boots''\<rparr>] shoes_store) =
     [\<lparr>out_record_id = Some ''1'', success = True, error = None\<rparr>,
      \<lparr>out_record_id = Some ''2'', success = False, error = Some ''Slug already exists''\<rparr>]"
  by (simp add: bulk_step_def truthy_def boots_valid boots_available boots_saved boots_taken
        Let_def)



end
